theory Spec2Isabelle
  imports Complex_Main
begin

section \<open>Kantpress simulator: the session record and its transition functions\<close>

text \<open>
  The game core of \<^verbatim>\<open>main.js\<close> is a single mutable object \<^verbatim>\<open>state\<close> and a handful of
  functions that read and write it. The model below passes the object explicitly: every
  function takes the session record and returns the updated one.

  JavaScript numbers are modelled by \<^typ>\<open>real\<close> (angles, speeds, times) and by \<^typ>\<open>int\<close>
  where the code only ever stores integers (score, round counter); rounding of IEEE doubles,
  \<^verbatim>\<open>NaN\<close> and infinities are outside the model. Writes to the DOM (button labels, audio,
  canvas) do not feed back into the session object and are left out.

  The two sources of outside data are parameters: \<^verbatim>\<open>Math.random()\<close> is the argument
  \<open>r\<close> (its contract is \<open>0 \<le> r < 1\<close>) and \<^verbatim>\<open>performance.now()\<close> is the argument
  \<open>now\<close>. The list of candidate angles is a parameter \<open>ta\<close> as well, because the two entry
  variants of the repository differ in it and in nothing else the model covers.
\<close>

subsection \<open>Constants\<close>

definition TARGET_ANGLES :: "real list" where
  "TARGET_ANGLES = [40, 85, 90, 100, 135, 160, 170]"

text \<open>The candidate list of the second entry variant (the localStorage one).\<close>

definition TARGET_ANGLES_local :: "real list" where
  "TARGET_ANGLES_local = [90, 100, 135, 170]"

definition SCORE_PER_EXACT_HIT :: int where
  "SCORE_PER_EXACT_HIT = 100"

definition MAX_ROUNDS :: int where
  "MAX_ROUNDS = 10"

subsection \<open>State\<close>

text \<open>
  \<^verbatim>\<open>gamePhase\<close> is a string in the source; the comment beside it lists five values, of
  which \<^verbatim>\<open>'RESULT'\<close> is never assigned.
\<close>

datatype phase = IDLE | BENDING | STOPPED | RESULT | GAMEOVER

text \<open>
  The fields of the object literal, in its order. \<^verbatim>\<open>lastTime\<close> is not in the literal:
  \<^verbatim>\<open>startBending\<close> adds it, so it is absent (\<open>None\<close>) before the first bend.
\<close>

record state =
  score :: int
  level :: int
  currentRound :: int
  targetAngle :: real
  currentAngle :: real
  isBending :: bool
  gamePhase :: phase
  startTime :: real
  bendSpeed :: real
  lastTime :: "real option"

definition initialState :: state where
  "initialState =
     \<lparr> score = 0, level = 1, currentRound = 1, targetAngle = 0, currentAngle = 180,
       isBending = False, gamePhase = IDLE, startTime = 0, bendSpeed = 30,
       lastTime = None \<rparr>"

subsection \<open>Scoring\<close>

text \<open>
  The value of the local variable \<^verbatim>\<open>points\<close> at the end of \<^verbatim>\<open>calculateScore\<close>, as a
  function of the two angles it is computed from.
\<close>

definition points :: "real \<Rightarrow> real \<Rightarrow> int" where
  "points cur tgt =
     (let diff = \<bar>cur - tgt\<bar>
      in if diff < 0.5 then SCORE_PER_EXACT_HIT
         else max 0 \<lfloor>100 - (diff * 5)\<rfloor>)"

definition calculateScore :: "state \<Rightarrow> state" where
  "calculateScore s = s\<lparr> score := score s + points (currentAngle s) (targetAngle s) \<rparr>"

subsection \<open>Round transitions\<close>

definition endGame :: "state \<Rightarrow> state" where
  "endGame s = s\<lparr> gamePhase := GAMEOVER \<rparr>"

text \<open>
  \<^verbatim>\<open>TARGET_ANGLES[Math.floor(Math.random() * TARGET_ANGLES.length)]\<close>: with
  \<open>0 \<le> r < 1\<close> the index lies inside the list.
\<close>

definition drawTarget :: "real list \<Rightarrow> real \<Rightarrow> real" where
  "drawTarget ta r = ta ! nat \<lfloor>r * real (length ta)\<rfloor>"

definition nextLevel :: "real list \<Rightarrow> real \<Rightarrow> state \<Rightarrow> state" where
  "nextLevel ta r s =
     (if currentRound s > MAX_ROUNDS then endGame s
      else s\<lparr> gamePhase := IDLE, currentAngle := 180, isBending := False,
              targetAngle := drawTarget ta r, level := currentRound s \<rparr>)"

definition restartGame :: "real list \<Rightarrow> real \<Rightarrow> state \<Rightarrow> state" where
  "restartGame ta r s = nextLevel ta r (s\<lparr> score := 0, currentRound := 1, level := 1 \<rparr>)"

definition startBending :: "real \<Rightarrow> state \<Rightarrow> state" where
  "startBending now s =
     (if gamePhase s \<noteq> IDLE then s
      else s\<lparr> gamePhase := BENDING, isBending := True, lastTime := Some now \<rparr>)"

definition stopBending :: "state \<Rightarrow> state" where
  "stopBending s =
     (if gamePhase s \<noteq> BENDING then s
      else (let s1 = calculateScore (s\<lparr> gamePhase := STOPPED, isBending := False \<rparr>)
            in s1\<lparr> currentRound := currentRound s1 + 1 \<rparr>))"

definition toggleAction :: "real \<Rightarrow> state \<Rightarrow> state" where
  "toggleAction now s =
     (if gamePhase s = IDLE then startBending now s
      else if gamePhase s = BENDING then stopBending s
      else s)"

subsection \<open>Simulation step\<close>

text \<open>
  Only the first \<^verbatim>\<open>if\<close> of \<^verbatim>\<open>update\<close> writes to the session; the second one writes the
  angle read-out into the page.
\<close>

definition update :: "real \<Rightarrow> state \<Rightarrow> state" where
  "update dt s =
     (if isBending s then
        (let s1 = s\<lparr> currentAngle := currentAngle s - bendSpeed s * dt \<rparr>
         in if currentAngle s1 < 45 then stopBending (s1\<lparr> currentAngle := 45 \<rparr>)
            else s1)
      else s)"

subsection \<open>Start-up and the event loop\<close>

text \<open>
  \<^verbatim>\<open>initGame\<close> runs once when the module is loaded and enters the first round; after it
  the session changes only in the handlers it registers (the toggle button, the next
  button, the animation frame) and in \<^verbatim>\<open>restartGame\<close>, which is exported on \<^verbatim>\<open>window\<close>.
\<close>

definition initGame :: "real list \<Rightarrow> real \<Rightarrow> state" where
  "initGame ta r = nextLevel ta r initialState"

datatype event = Toggle real | Next real | Frame real | Restart real

fun handle :: "real list \<Rightarrow> event \<Rightarrow> state \<Rightarrow> state" where
  "handle ta (Toggle now) s = toggleAction now s"
| "handle ta (Next r) s = nextLevel ta r s"
| "handle ta (Frame dt) s = update dt s"
| "handle ta (Restart r) s = restartGame ta r s"

text \<open>
  What the environment can deliver: random draws in \<open>[0, 1)\<close> and frames whose elapsed time
  is not negative.
\<close>

fun admissible :: "event \<Rightarrow> bool" where
  "admissible (Toggle now) = True"
| "admissible (Next r) = (0 \<le> r \<and> r < 1)"
| "admissible (Frame dt) = (0 \<le> dt)"
| "admissible (Restart r) = (0 \<le> r \<and> r < 1)"

fun run :: "real list \<Rightarrow> event list \<Rightarrow> state \<Rightarrow> state" where
  "run ta [] s = s"
| "run ta (e # es) s = run ta es (handle ta e s)"

subsection \<open>Vocabulary of the properties\<close>

text \<open>
  \<open>finalised s a s'\<close>: the session \<open>s'\<close> is \<open>s\<close> after one finalised bend at angle \<open>a\<close>:
  stopped, scored once against \<open>a\<close>, round counter one higher.
\<close>

definition finalised :: "state \<Rightarrow> real \<Rightarrow> state \<Rightarrow> bool" where
  "finalised s a s' \<longleftrightarrow>
     gamePhase s' = STOPPED \<and> \<not> isBending s' \<and> currentAngle s' = a \<and>
     score s' = score s + points a (targetAngle s) \<and>
     currentRound s' = currentRound s + 1 \<and>
     targetAngle s' = targetAngle s"

text \<open>Events other than a restart, and the two user inputs of a round.\<close>

fun isRestart :: "event \<Rightarrow> bool" where
  "isRestart (Restart r) = True"
| "isRestart e = False"

fun userInput :: "event \<Rightarrow> bool" where
  "userInput (Toggle now) = True"
| "userInput (Next r) = True"
| "userInput e = False"


text \<open>
  The facts about a session that every handler keeps true once \<^verbatim>\<open>initGame\<close> has run:
  the angle is between the floor and 180, the speed is the one of the object literal, the
  target is a candidate, the flag mirrors the phase, and a round is open only while the
  round counter has not passed \<^verbatim>\<open>MAX_ROUNDS\<close>.
\<close>

definition session_ok :: "real list \<Rightarrow> state \<Rightarrow> bool" where
  "session_ok ta s \<longleftrightarrow>
     45 \<le> currentAngle s \<and> currentAngle s \<le> 180 \<and> bendSpeed s = 30 \<and>
     targetAngle s \<in> set ta \<and>
     (isBending s \<longleftrightarrow> gamePhase s = BENDING) \<and>
     (gamePhase s = IDLE \<or> gamePhase s = BENDING \<longrightarrow> currentRound s \<le> MAX_ROUNDS)"

text \<open>Concrete sessions used to exercise the theorems.\<close>

text \<open>
  Two rounds played after start-up: the first stopped by hand at 105 degrees, the second
  held until the floor forces the stop.
\<close>

definition twoRounds :: "event list" where
  "twoRounds =
     [Toggle 0, Frame 1, Frame 1, Frame (1/2), Toggle 2500, Next (1/4), Toggle 4000, Frame 5]"


definition afterTenRounds :: state where
  "afterTenRounds = initialState\<lparr> score := 640, level := 10, currentRound := 11,
                                  targetAngle := 135, currentAngle := 131,
                                  gamePhase := GAMEOVER, lastTime := Some 52000 \<rparr>"

definition midBend :: state where
  "midBend = initialState\<lparr> targetAngle := 90, currentAngle := 95, isBending := True,
                           gamePhase := BENDING \<rparr>"

section \<open>Scoring\<close>

lemma points_range: "0 \<le> points cur tgt \<and> points cur tgt \<le> 100"
proof (cases "\<bar>cur - tgt\<bar> < 0.5")
  case True
  then show ?thesis by (simp add: points_def SCORE_PER_EXACT_HIT_def)
next
  case False
  then have "100 - \<bar>cur - tgt\<bar> * 5 \<le> 100" by simp
  then have "\<lfloor>100 - \<bar>cur - tgt\<bar> * 5\<rfloor> \<le> 100" by linarith
  with False show ?thesis by (simp add: points_def)
qed

text \<open>
  C1. For all angles, with \<open>diff = \<bar>finalAngle - targetAngle\<bar>\<close>, the points awarded are
  100 when \<open>diff < 0.5\<close> and \<open>max 0 \<lfloor>100 - diff * 5\<rfloor>\<close> otherwise; they are an integer
  between 0 and 100, and \<^verbatim>\<open>calculateScore\<close> adds exactly them to the session score.
\<close>

theorem score_contract:
  "points finalAngle tgt =
     (if \<bar>finalAngle - tgt\<bar> < 0.5 then 100 else max 0 \<lfloor>100 - \<bar>finalAngle - tgt\<bar> * 5\<rfloor>) \<and>
   0 \<le> points finalAngle tgt \<and> points finalAngle tgt \<le> 100 \<and>
   score (calculateScore s) = score s + points (currentAngle s) (targetAngle s)"
  using points_range [of finalAngle tgt]
  by (simp add: points_def SCORE_PER_EXACT_HIT_def calculateScore_def)

theorem score_contract_witness:
  "points 95 90 = 75 \<and> points 90.25 90 = 100 \<and> points 45 90 = 0 \<and>
   score (calculateScore midBend) = 75"
  using score_contract [of 95 90 midBend] score_contract [of "90.25" 90 midBend]
    score_contract [of 45 90 midBend]
  by (simp add: midBend_def initialState_def)

section \<open>The simulation step\<close>

lemma update_idle: "\<not> isBending s \<Longrightarrow> update dt s = s"
  by (simp add: update_def)

lemma stopBending_currentAngle: "currentAngle (stopBending s) = currentAngle s"
  by (simp add: stopBending_def calculateScore_def Let_def)

lemma update_currentAngle:
  "isBending s \<Longrightarrow>
   currentAngle (update dt s) =
     (if currentAngle s - bendSpeed s * dt < 45 then 45 else currentAngle s - bendSpeed s * dt)"
  by (simp add: update_def Let_def stopBending_currentAngle)

text \<open>
  C10. A step taken while \<^verbatim>\<open>isBending\<close> is false returns the session as it was, whatever
  the elapsed time; so a step that changes the session was taken while bending.
\<close>

theorem update_frame:
  "(\<not> isBending s \<longrightarrow> update dt s = s) \<and> (update dt s \<noteq> s \<longrightarrow> isBending s)"
  using update_idle [of s dt] by blast

theorem update_frame_witness:
  "\<not> isBending initialState \<and> update 7 initialState = initialState \<and>
   update 1 midBend \<noteq> midBend \<and> isBending midBend"
proof -
  have a: "currentAngle (update 1 midBend) \<noteq> currentAngle midBend"
    by (simp add: update_currentAngle midBend_def initialState_def)
  have ne: "update 1 midBend \<noteq> midBend"
  proof
    assume "update 1 midBend = midBend"
    then have "currentAngle (update 1 midBend) = currentAngle midBend" by (rule arg_cong)
    with a show False by contradiction
  qed
  have idle: "\<not> isBending initialState" by (simp add: initialState_def)
  from update_frame [of initialState 7] idle
  have "update 7 initialState = initialState" by blast
  moreover from update_frame [of midBend 1] ne have "isBending midBend" by blast
  ultimately show ?thesis using idle ne by blast
qed

section \<open>Stopping a bend\<close>

lemma stopBending_finalised:
  "gamePhase s = BENDING \<Longrightarrow> finalised s (currentAngle s) (stopBending s)"
  by (simp add: finalised_def stopBending_def calculateScore_def Let_def)

lemma stopBending_guard: "gamePhase s \<noteq> BENDING \<Longrightarrow> stopBending s = s"
  by (simp add: stopBending_def)

lemma startBending_guard: "gamePhase s \<noteq> IDLE \<Longrightarrow> startBending now s = s"
  by (simp add: startBending_def)

lemma toggleAction_guard:
  "gamePhase s \<noteq> IDLE \<Longrightarrow> gamePhase s \<noteq> BENDING \<Longrightarrow> toggleAction now s = s"
  by (simp add: toggleAction_def)

lemma toggleAction_bending: "gamePhase s = BENDING \<Longrightarrow> toggleAction now s = stopBending s"
  by (simp add: toggleAction_def)

lemma update_forced:
  assumes "gamePhase s = BENDING" and "isBending s"
    and "currentAngle s - bendSpeed s * dt < 45"
  shows "finalised s 45 (update dt s)"
proof -
  let ?c = "s\<lparr> currentAngle := 45 \<rparr>"
  from assms(2,3) have "update dt s = stopBending ?c"
    by (simp add: update_def Let_def)
  moreover from assms(1) have "finalised ?c (currentAngle ?c) (stopBending ?c)"
    by (intro stopBending_finalised) simp
  ultimately show ?thesis by (simp add: finalised_def)
qed

lemma finalised_inert:
  assumes "finalised s a s'"
  shows "stopBending s' = s' \<and> toggleAction now s' = s' \<and> update dt s' = s'"
proof -
  from assms have p: "gamePhase s' = STOPPED" and b: "\<not> isBending s'"
    by (simp_all add: finalised_def)
  from p have "stopBending s' = s'" by (simp add: stopBending_guard)
  moreover from p have "toggleAction now s' = s'" by (simp add: toggleAction_guard)
  moreover from b have "update dt s' = s'" by (rule update_idle)
  ultimately show ?thesis by simp
qed

text \<open>
  C3. A stop of a session whose phase is \<open>BENDING\<close>, by the toggle or by the simulation
  step whose decremented angle falls below the floor, leaves the session finalised: phase
  \<open>STOPPED\<close>, flag cleared, the points for the final angle (the floor 45 in the forced
  case) added to the score, the round counter one higher, the target untouched. After
  either stop a further \<^verbatim>\<open>stopBending\<close>, toggle or simulation step returns the session
  unchanged, so a round is scored and counted once.
\<close>

theorem stop_exactly_once:
  assumes "gamePhase s = BENDING"
  shows "finalised s (currentAngle s) (toggleAction now s) \<and>
         stopBending (toggleAction now s) = toggleAction now s \<and>
         toggleAction now' (toggleAction now s) = toggleAction now s \<and>
         update dt' (toggleAction now s) = toggleAction now s \<and>
         (isBending s \<and> currentAngle s - bendSpeed s * dt < 45 \<longrightarrow>
            finalised s 45 (update dt s) \<and>
            stopBending (update dt s) = update dt s \<and>
            toggleAction now' (update dt s) = update dt s \<and>
            update dt' (update dt s) = update dt s)"
proof -
  from assms have m: "finalised s (currentAngle s) (toggleAction now s)"
    by (simp add: toggleAction_bending stopBending_finalised)
  have f: "finalised s 45 (update dt s)"
    if "isBending s" and "currentAngle s - bendSpeed s * dt < 45"
    using assms that by (rule update_forced)
  from m f finalised_inert [OF m, of now' dt'] finalised_inert [OF f, of now' dt']
  show ?thesis by blast
qed

theorem stop_exactly_once_witness:
  "gamePhase midBend = BENDING \<and> isBending midBend \<and>
   currentAngle midBend - bendSpeed midBend * 2 < 45 \<and>
   gamePhase (toggleAction 0 midBend) = STOPPED \<and>
   score (toggleAction 0 midBend) = score midBend + 75 \<and>
   currentRound (toggleAction 0 midBend) = currentRound midBend + 1 \<and>
   toggleAction 1 (toggleAction 0 midBend) = toggleAction 0 midBend \<and>
   update 2 (toggleAction 0 midBend) = toggleAction 0 midBend \<and>
   gamePhase (update 2 midBend) = STOPPED \<and> currentAngle (update 2 midBend) = 45 \<and>
   score (update 2 midBend) = score midBend + 0 \<and>
   currentRound (update 2 midBend) = currentRound midBend + 1 \<and>
   toggleAction 1 (update 2 midBend) = update 2 midBend \<and>
   update 2 (update 2 midBend) = update 2 midBend"
proof -
  have h: "gamePhase midBend = BENDING" by (simp add: midBend_def)
  have v: "isBending midBend" "currentAngle midBend = 95" "bendSpeed midBend = 30"
    "targetAngle midBend = 90"
    by (simp_all add: midBend_def initialState_def)
  have p: "points 95 90 = 75" "points 45 90 = 0"
    by (simp_all add: points_def)
  show ?thesis
    using stop_exactly_once [OF h, of 0 1 2 2] h v p by (simp add: finalised_def)
qed

section \<open>Actions outside their phase\<close>

lemma nextLevel_over: "MAX_ROUNDS < currentRound s \<Longrightarrow> nextLevel ta r s = endGame s"
  by (simp add: nextLevel_def)

lemma nextLevel_open:
  "currentRound s \<le> MAX_ROUNDS \<Longrightarrow>
   nextLevel ta r s =
     s\<lparr> gamePhase := IDLE, currentAngle := 180, isBending := False,
        targetAngle := drawTarget ta r, level := currentRound s \<rparr>"
  by (simp add: nextLevel_def)

lemma nextLevel_score_round:
  "score (nextLevel ta r s) = score s \<and> currentRound (nextLevel ta r s) = currentRound s"
  by (simp add: nextLevel_def endGame_def)

text \<open>
  C4 (as the code has it). \<^verbatim>\<open>stopBending\<close> outside \<open>BENDING\<close> and \<^verbatim>\<open>startBending\<close>
  outside \<open>IDLE\<close> return the session unchanged, and so does the toggle in a phase that is
  neither. The advance action is not guarded by the phase: \<^verbatim>\<open>nextLevel\<close> always leaves
  score and round counter as they are, and while rounds remain it enters \<open>IDLE\<close> from
  any phase, sets the angle to 180, clears the flag and draws a target.
\<close>

theorem out_of_phase_actions:
  "(gamePhase s \<noteq> BENDING \<longrightarrow> stopBending s = s) \<and>
   (gamePhase s \<noteq> IDLE \<longrightarrow> startBending now s = s) \<and>
   (gamePhase s \<noteq> IDLE \<and> gamePhase s \<noteq> BENDING \<longrightarrow> toggleAction now s = s) \<and>
   score (nextLevel ta r s) = score s \<and>
   currentRound (nextLevel ta r s) = currentRound s \<and>
   (currentRound s \<le> MAX_ROUNDS \<longrightarrow>
      gamePhase (nextLevel ta r s) = IDLE \<and> currentAngle (nextLevel ta r s) = 180 \<and>
      \<not> isBending (nextLevel ta r s) \<and> targetAngle (nextLevel ta r s) = drawTarget ta r)"
  using stopBending_guard [of s] startBending_guard [of s now] toggleAction_guard [of s now]
    nextLevel_score_round [of ta r s]
  by (simp add: nextLevel_open)

theorem out_of_phase_actions_witness:
  "gamePhase initialState \<noteq> BENDING \<and> stopBending initialState = initialState \<and>
   gamePhase midBend \<noteq> IDLE \<and> startBending 3 midBend = midBend \<and>
   gamePhase afterTenRounds \<noteq> IDLE \<and> gamePhase afterTenRounds \<noteq> BENDING \<and>
   toggleAction 3 afterTenRounds = afterTenRounds \<and>
   currentRound midBend \<le> MAX_ROUNDS \<and>
   score (nextLevel TARGET_ANGLES (1/2) midBend) = score midBend \<and>
   currentRound (nextLevel TARGET_ANGLES (1/2) midBend) = currentRound midBend \<and>
   gamePhase (nextLevel TARGET_ANGLES (1/2) midBend) = IDLE \<and>
   currentAngle (nextLevel TARGET_ANGLES (1/2) midBend) = 180"
proof -
  have h: "gamePhase initialState \<noteq> BENDING" "gamePhase midBend \<noteq> IDLE"
    "gamePhase afterTenRounds \<noteq> IDLE" "gamePhase afterTenRounds \<noteq> BENDING"
    "currentRound midBend \<le> MAX_ROUNDS"
    by (simp_all add: initialState_def midBend_def afterTenRounds_def MAX_ROUNDS_def)
  show ?thesis
    using out_of_phase_actions [of initialState 3 TARGET_ANGLES "1/2"]
      out_of_phase_actions [of midBend 3 TARGET_ANGLES "1/2"]
      out_of_phase_actions [of afterTenRounds 3 TARGET_ANGLES "1/2"] h
    by simp
qed

text \<open>
  The claim as worded fails for the advance action: \<^verbatim>\<open>nextLevel\<close> has no guard on the
  phase, so in the middle of a bend it puts the session back to \<open>IDLE\<close> at 180 degrees
  with a new target.
\<close>

theorem advance_mid_bend_changes_session:
  "gamePhase midBend = BENDING \<and> currentAngle midBend = 95 \<and> targetAngle midBend = 90 \<and>
   gamePhase (nextLevel TARGET_ANGLES (1/2) midBend) = IDLE \<and>
   currentAngle (nextLevel TARGET_ANGLES (1/2) midBend) = 180 \<and>
   targetAngle (nextLevel TARGET_ANGLES (1/2) midBend) = 100 \<and>
   nextLevel TARGET_ANGLES (1/2) midBend \<noteq> midBend"
proof -
  have r: "currentRound midBend \<le> MAX_ROUNDS"
    by (simp add: midBend_def initialState_def MAX_ROUNDS_def)
  have d: "drawTarget TARGET_ANGLES (1/2) = 100"
    by (simp add: drawTarget_def TARGET_ANGLES_def)
  have v: "gamePhase midBend = BENDING" "currentAngle midBend = 95" "targetAngle midBend = 90"
    by (simp_all add: midBend_def)
  have n: "gamePhase (nextLevel TARGET_ANGLES (1/2) midBend) = IDLE"
    "currentAngle (nextLevel TARGET_ANGLES (1/2) midBend) = 180"
    "targetAngle (nextLevel TARGET_ANGLES (1/2) midBend) = 100"
    by (simp_all add: nextLevel_open [OF r] d)
  have "nextLevel TARGET_ANGLES (1/2) midBend \<noteq> midBend"
  proof
    assume "nextLevel TARGET_ANGLES (1/2) midBend = midBend"
    then have "gamePhase (nextLevel TARGET_ANGLES (1/2) midBend) = gamePhase midBend"
      by (rule arg_cong)
    with n(1) v(1) show False by simp
  qed
  with v n show ?thesis by simp
qed

section \<open>Game over and restart\<close>

lemma gameover_handle:
  assumes "gamePhase s = GAMEOVER" and "MAX_ROUNDS < currentRound s" and "\<not> isRestart e"
  shows "gamePhase (handle ta e s) = GAMEOVER \<and> MAX_ROUNDS < currentRound (handle ta e s)"
proof (cases e)
  case (Toggle now)
  with assms show ?thesis by (simp add: toggleAction_guard)
next
  case (Next r)
  with assms show ?thesis by (simp add: nextLevel_over endGame_def)
next
  case (Frame dt)
  from assms(1) have "stopBending (s\<lparr> currentAngle := a \<rparr>) = s\<lparr> currentAngle := a \<rparr>" for a
    by (simp add: stopBending_guard)
  with assms Frame show ?thesis by (simp add: update_def Let_def)
next
  case (Restart r)
  with assms show ?thesis by simp
qed

lemma gameover_run:
  "gamePhase s = GAMEOVER \<Longrightarrow> MAX_ROUNDS < currentRound s \<Longrightarrow>
   list_all (\<lambda>e. \<not> isRestart e) evs \<Longrightarrow> gamePhase (run ta evs s) = GAMEOVER"
proof (induction evs arbitrary: s)
  case Nil
  then show ?case by simp
next
  case (Cons e evs)
  from Cons.prems have "\<not> isRestart e" and rest: "list_all (\<lambda>e. \<not> isRestart e) evs"
    by simp_all
  with Cons.prems(1,2) gameover_handle [of s e ta]
  have "gamePhase (handle ta e s) = GAMEOVER" "MAX_ROUNDS < currentRound (handle ta e s)"
    by simp_all
  with rest show ?case by (simp add: Cons.IH)
qed

lemma gameover_input:
  assumes "gamePhase s = GAMEOVER" and "MAX_ROUNDS < currentRound s" and "userInput e"
  shows "handle ta e s = s"
proof (cases e)
  case (Toggle now)
  with assms show ?thesis by (simp add: toggleAction_guard)
next
  case (Next r)
  with assms show ?thesis by (simp add: nextLevel_over endGame_def)
next
  case (Frame dt)
  with assms show ?thesis by simp
next
  case (Restart r)
  with assms show ?thesis by simp
qed

lemma gameover_inputs:
  "gamePhase s = GAMEOVER \<Longrightarrow> MAX_ROUNDS < currentRound s \<Longrightarrow>
   list_all userInput evs \<Longrightarrow> run ta evs s = s"
  by (induction evs) (simp_all add: gameover_input)

lemma endGame_fields:
  "gamePhase (endGame s) = GAMEOVER \<and> score (endGame s) = score s \<and>
   currentRound (endGame s) = currentRound s \<and> targetAngle (endGame s) = targetAngle s \<and>
   currentAngle (endGame s) = currentAngle s \<and> isBending (endGame s) = isBending s"
  by (simp add: endGame_def)

text \<open>
  C5. When \<^verbatim>\<open>nextLevel\<close> runs with the round counter above \<^verbatim>\<open>MAX_ROUNDS\<close> the phase
  becomes \<open>GAMEOVER\<close> while score, round counter, target and angle stay as they were.
  From then on the toggle and the advance action return the session unchanged, as does any
  sequence of the two, and no sequence of events without a restart leaves \<open>GAMEOVER\<close>.
\<close>

theorem gameover_absorbing:
  assumes "MAX_ROUNDS < currentRound s"
  shows "gamePhase (nextLevel ta r s) = GAMEOVER \<and>
         score (nextLevel ta r s) = score s \<and>
         currentRound (nextLevel ta r s) = currentRound s \<and>
         targetAngle (nextLevel ta r s) = targetAngle s \<and>
         currentAngle (nextLevel ta r s) = currentAngle s \<and>
         toggleAction now (nextLevel ta r s) = nextLevel ta r s \<and>
         nextLevel ta r' (nextLevel ta r s) = nextLevel ta r s \<and>
         (list_all userInput evs \<longrightarrow> run ta evs (nextLevel ta r s) = nextLevel ta r s) \<and>
         (list_all (\<lambda>e. \<not> isRestart e) evs \<longrightarrow>
            gamePhase (run ta evs (nextLevel ta r s)) = GAMEOVER)"
proof -
  let ?g = "nextLevel ta r s"
  from assms have g: "?g = endGame s" by (rule nextLevel_over)
  with endGame_fields [of s] assms
  have p: "gamePhase ?g = GAMEOVER" and c: "MAX_ROUNDS < currentRound ?g" by simp_all
  from gameover_input [OF p c, of "Toggle now" ta]
  have t: "toggleAction now ?g = ?g" by simp
  from gameover_input [OF p c, of "Next r'" ta]
  have n: "nextLevel ta r' ?g = ?g" by simp
  from g endGame_fields [of s] t n gameover_inputs [OF p c, of evs ta]
    gameover_run [OF p c, of evs ta]
  show ?thesis by simp
qed

theorem gameover_absorbing_witness:
  "MAX_ROUNDS < currentRound afterTenRounds \<and>
   gamePhase (nextLevel TARGET_ANGLES 0 afterTenRounds) = GAMEOVER \<and>
   score (nextLevel TARGET_ANGLES 0 afterTenRounds) = 640 \<and>
   list_all userInput [Toggle 1, Next (1/2), Toggle 2] \<and>
   run TARGET_ANGLES [Toggle 1, Next (1/2), Toggle 2] (nextLevel TARGET_ANGLES 0 afterTenRounds)
     = nextLevel TARGET_ANGLES 0 afterTenRounds \<and>
   list_all (\<lambda>e. \<not> isRestart e) [Toggle 1, Frame 2, Next (1/2)] \<and>
   gamePhase (run TARGET_ANGLES [Toggle 1, Frame 2, Next (1/2)]
     (nextLevel TARGET_ANGLES 0 afterTenRounds)) = GAMEOVER"
proof -
  let ?g = "nextLevel TARGET_ANGLES 0 afterTenRounds"
  have h: "MAX_ROUNDS < currentRound afterTenRounds"
    by (simp add: afterTenRounds_def MAX_ROUNDS_def)
  have v: "score afterTenRounds = 640" by (simp add: afterTenRounds_def)
  have l1: "list_all userInput [Toggle 1, Next (1/2), Toggle 2]" by simp
  have l2: "list_all (\<lambda>e. \<not> isRestart e) [Toggle 1, Frame 2, Next (1/2)]" by simp
  note a = gameover_absorbing [OF h, of TARGET_ANGLES 0 1 0 "[Toggle 1, Next (1/2), Toggle 2]"]
  note b = gameover_absorbing [OF h, of TARGET_ANGLES 0 1 0 "[Toggle 1, Frame 2, Next (1/2)]"]
  from a have p: "gamePhase ?g = GAMEOVER" by blast
  from a have "score ?g = score afterTenRounds" by blast
  with v have s: "score ?g = 640" by simp
  from a l1 have r1: "run TARGET_ANGLES [Toggle 1, Next (1/2), Toggle 2] ?g = ?g" by blast
  from b l2 have r2: "gamePhase (run TARGET_ANGLES [Toggle 1, Frame 2, Next (1/2)] ?g) = GAMEOVER"
    by blast
  from h p s l1 r1 l2 r2 show ?thesis by blast
qed

lemma drawTarget_index:
  assumes "0 \<le> r" and "r < 1" and "ta \<noteq> []"
  shows "nat \<lfloor>r * real (length ta)\<rfloor> < length ta"
proof -
  from assms(3) have n: "0 < real (length ta)" by simp
  with assms(2) have "r * real (length ta) < real (length ta)" by simp
  then have "\<lfloor>r * real (length ta)\<rfloor> < int (length ta)" by (simp add: floor_less_iff)
  moreover from assms(1) n have "0 \<le> \<lfloor>r * real (length ta)\<rfloor>" by simp
  ultimately show ?thesis by linarith
qed

lemma drawTarget_member:
  "0 \<le> r \<Longrightarrow> r < 1 \<Longrightarrow> ta \<noteq> [] \<Longrightarrow> drawTarget ta r \<in> set ta"
  unfolding drawTarget_def by (rule nth_mem, rule drawTarget_index)

lemma restartGame_eq:
  "restartGame ta r s =
     s\<lparr> score := 0, currentRound := 1, level := 1, gamePhase := IDLE, currentAngle := 180,
        isBending := False, targetAngle := drawTarget ta r \<rparr>"
  by (simp add: restartGame_def nextLevel_def MAX_ROUNDS_def)

lemma initGame_eq:
  "initGame ta r = initialState\<lparr> targetAngle := drawTarget ta r \<rparr>"
  by (simp add: initGame_def nextLevel_def MAX_ROUNDS_def initialState_def)

lemma drawTarget_hits:
  assumes "i < length ta"
  shows "drawTarget ta (real i / real (length ta)) = ta ! i"
proof -
  from assms have "ta \<noteq> []" by auto
  then have "real i / real (length ta) * real (length ta) = real i" by simp
  then show ?thesis by (simp add: drawTarget_def)
qed

text \<open>
  C9. For every session, \<^verbatim>\<open>restartGame\<close> sets the score to 0 and the round counter and
  level to 1, and enters \<open>IDLE\<close> at 180 degrees with the flag cleared and a fresh target:
  the candidate at index \<open>\<lfloor>r * length\<rfloor>\<close> of the new draw \<open>r\<close>, whatever the target was
  before; the index is inside the list, and every candidate is the outcome of some draw.
  The result is what start-up yields for the same draw, apart from the three fields that
  neither of them writes.
\<close>

theorem restart_resets:
  assumes "0 \<le> r" and "r < 1" and "ta \<noteq> []"
  shows "score (restartGame ta r s) = 0 \<and> currentRound (restartGame ta r s) = 1 \<and>
         level (restartGame ta r s) = 1 \<and> gamePhase (restartGame ta r s) = IDLE \<and>
         currentAngle (restartGame ta r s) = 180 \<and> \<not> isBending (restartGame ta r s) \<and>
         targetAngle (restartGame ta r s) = ta ! nat \<lfloor>r * real (length ta)\<rfloor> \<and>
         nat \<lfloor>r * real (length ta)\<rfloor> < length ta \<and>
         targetAngle (restartGame ta r s) \<in> set ta \<and>
         (i < length ta \<longrightarrow>
            targetAngle (restartGame ta (real i / real (length ta)) s) = ta ! i) \<and>
         restartGame ta r s =
           (initGame ta r)\<lparr> startTime := startTime s, bendSpeed := bendSpeed s,
                             lastTime := lastTime s \<rparr>"
proof -
  have t: "targetAngle (restartGame ta r' s) = drawTarget ta r'" for r'
    by (simp add: restartGame_eq)
  have fixed: "score (restartGame ta r s) = 0 \<and> currentRound (restartGame ta r s) = 1 \<and>
      level (restartGame ta r s) = 1 \<and> gamePhase (restartGame ta r s) = IDLE \<and>
      currentAngle (restartGame ta r s) = 180 \<and> \<not> isBending (restartGame ta r s)"
    by (simp add: restartGame_eq)
  have index: "targetAngle (restartGame ta r s) = ta ! nat \<lfloor>r * real (length ta)\<rfloor>"
    by (simp add: t drawTarget_def)
  have member: "targetAngle (restartGame ta r s) \<in> set ta"
    using drawTarget_member [OF assms] by (simp add: t)
  have every: "targetAngle (restartGame ta (real i / real (length ta)) s) = ta ! i"
    if "i < length ta"
    using that by (simp add: t drawTarget_hits)
  have fresh: "restartGame ta r s =
      (initGame ta r)\<lparr> startTime := startTime s, bendSpeed := bendSpeed s,
                        lastTime := lastTime s \<rparr>"
    by (simp add: restartGame_eq initGame_eq initialState_def)
  from fixed index drawTarget_index [OF assms] member every fresh show ?thesis by blast
qed

theorem restart_resets_witness:
  "(0::real) \<le> 1/2 \<and> (1/2::real) < 1 \<and> TARGET_ANGLES \<noteq> [] \<and>
   gamePhase afterTenRounds = GAMEOVER \<and> score afterTenRounds = 640 \<and>
   targetAngle afterTenRounds = 135 \<and>
   score (restartGame TARGET_ANGLES (1/2) afterTenRounds) = 0 \<and>
   currentRound (restartGame TARGET_ANGLES (1/2) afterTenRounds) = 1 \<and>
   gamePhase (restartGame TARGET_ANGLES (1/2) afterTenRounds) = IDLE \<and>
   currentAngle (restartGame TARGET_ANGLES (1/2) afterTenRounds) = 180 \<and>
   targetAngle (restartGame TARGET_ANGLES (1/2) afterTenRounds) = 100 \<and>
   (0::real) \<le> 0 \<and> (0::real) < 1 \<and>
   targetAngle (restartGame TARGET_ANGLES 0 afterTenRounds) = 40 \<and>
   (0::real) \<le> 9/10 \<and> (9/10::real) < 1 \<and>
   targetAngle (restartGame TARGET_ANGLES (9/10) afterTenRounds) = 170 \<and>
   (5::nat) < length TARGET_ANGLES \<and>
   targetAngle (restartGame TARGET_ANGLES (real 5 / real (length TARGET_ANGLES)) afterTenRounds)
     = 160 \<and>
   TARGET_ANGLES_local \<noteq> [] \<and>
   targetAngle (restartGame TARGET_ANGLES_local (1/2) afterTenRounds) = 135 \<and>
   targetAngle (restartGame TARGET_ANGLES_local (9/10) afterTenRounds) = 170"
proof -
  have h: "(0::real) \<le> 1/2" "(1/2::real) < 1" "TARGET_ANGLES \<noteq> []"
    by (simp_all add: TARGET_ANGLES_def)
  have h0: "(0::real) \<le> 0" "(0::real) < 1" by simp_all
  have h9: "(0::real) \<le> 9/10" "(9/10::real) < 1" by simp_all
  have h': "TARGET_ANGLES_local \<noteq> []" by (simp add: TARGET_ANGLES_local_def)
  have v: "gamePhase afterTenRounds = GAMEOVER" "score afterTenRounds = 640"
    "targetAngle afterTenRounds = 135"
    by (simp_all add: afterTenRounds_def)
  have n: "(5::nat) < length TARGET_ANGLES" by (simp add: TARGET_ANGLES_def)
  have e: "TARGET_ANGLES ! nat \<lfloor>(1/2) * real (length TARGET_ANGLES)\<rfloor> = 100"
    "TARGET_ANGLES ! nat \<lfloor>0 * real (length TARGET_ANGLES)\<rfloor> = 40"
    "TARGET_ANGLES ! nat \<lfloor>(9/10) * real (length TARGET_ANGLES)\<rfloor> = 170"
    "TARGET_ANGLES ! 5 = 160"
    "TARGET_ANGLES_local ! nat \<lfloor>(1/2) * real (length TARGET_ANGLES_local)\<rfloor> = 135"
    "TARGET_ANGLES_local ! nat \<lfloor>(9/10) * real (length TARGET_ANGLES_local)\<rfloor> = 170"
    by (simp_all add: TARGET_ANGLES_def TARGET_ANGLES_local_def)
  note a = restart_resets [OF h, of afterTenRounds 5]
  note b = restart_resets [OF h0 h(3), of afterTenRounds 5]
  note c = restart_resets [OF h9 h(3), of afterTenRounds 5]
  note d = restart_resets [OF h(1,2) h', of afterTenRounds 0]
  note d9 = restart_resets [OF h9 h', of afterTenRounds 0]
  from a have f: "score (restartGame TARGET_ANGLES (1/2) afterTenRounds) = 0"
    "currentRound (restartGame TARGET_ANGLES (1/2) afterTenRounds) = 1"
    "gamePhase (restartGame TARGET_ANGLES (1/2) afterTenRounds) = IDLE"
    "currentAngle (restartGame TARGET_ANGLES (1/2) afterTenRounds) = 180" by blast+
  from a have "targetAngle (restartGame TARGET_ANGLES (1/2) afterTenRounds)
      = TARGET_ANGLES ! nat \<lfloor>(1/2) * real (length TARGET_ANGLES)\<rfloor>" by blast
  from this e(1) have t1: "targetAngle (restartGame TARGET_ANGLES (1/2) afterTenRounds) = 100"
    by (rule trans)
  from b have "targetAngle (restartGame TARGET_ANGLES 0 afterTenRounds)
      = TARGET_ANGLES ! nat \<lfloor>0 * real (length TARGET_ANGLES)\<rfloor>" by blast
  from this e(2) have t2: "targetAngle (restartGame TARGET_ANGLES 0 afterTenRounds) = 40"
    by (rule trans)
  from c have "targetAngle (restartGame TARGET_ANGLES (9/10) afterTenRounds)
      = TARGET_ANGLES ! nat \<lfloor>(9/10) * real (length TARGET_ANGLES)\<rfloor>" by blast
  from this e(3) have t3: "targetAngle (restartGame TARGET_ANGLES (9/10) afterTenRounds) = 170"
    by (rule trans)
  from a n have "targetAngle
      (restartGame TARGET_ANGLES (real 5 / real (length TARGET_ANGLES)) afterTenRounds)
      = TARGET_ANGLES ! 5" by blast
  from this e(4) have t4: "targetAngle
      (restartGame TARGET_ANGLES (real 5 / real (length TARGET_ANGLES)) afterTenRounds) = 160"
    by (rule trans)
  from d have "targetAngle (restartGame TARGET_ANGLES_local (1/2) afterTenRounds)
      = TARGET_ANGLES_local ! nat \<lfloor>(1/2) * real (length TARGET_ANGLES_local)\<rfloor>" by blast
  from this e(5) have t5: "targetAngle (restartGame TARGET_ANGLES_local (1/2) afterTenRounds) = 135"
    by (rule trans)
  from d9 have "targetAngle (restartGame TARGET_ANGLES_local (9/10) afterTenRounds)
      = TARGET_ANGLES_local ! nat \<lfloor>(9/10) * real (length TARGET_ANGLES_local)\<rfloor>" by blast
  from this e(6) have t6: "targetAngle (restartGame TARGET_ANGLES_local (9/10) afterTenRounds) = 170"
    by (rule trans)
  from h h0 h9 h' v n f t1 t2 t3 t4 t5 t6 show ?thesis by blast
qed

section \<open>Invariants of the running session\<close>

subsection \<open>The handlers keep \<open>session_ok\<close>\<close>

lemma session_ok_initGame:
  "0 \<le> r \<Longrightarrow> r < 1 \<Longrightarrow> ta \<noteq> [] \<Longrightarrow> session_ok ta (initGame ta r)"
  by (simp add: session_ok_def initGame_eq initialState_def drawTarget_member MAX_ROUNDS_def)

lemma session_ok_startBending: "session_ok ta s \<Longrightarrow> session_ok ta (startBending now s)"
  by (simp add: session_ok_def startBending_def)

lemma session_ok_stopBending: "session_ok ta s \<Longrightarrow> session_ok ta (stopBending s)"
  by (simp add: session_ok_def stopBending_def calculateScore_def Let_def)

lemma session_ok_toggleAction: "session_ok ta s \<Longrightarrow> session_ok ta (toggleAction now s)"
  by (simp add: toggleAction_def session_ok_startBending session_ok_stopBending)

lemma session_ok_nextLevel:
  assumes "session_ok ta s" and "0 \<le> r" and "r < 1" and "ta \<noteq> []"
  shows "session_ok ta (nextLevel ta r s)"
proof (cases "MAX_ROUNDS < currentRound s")
  case True
  with assms(1) have "gamePhase s \<noteq> IDLE" "gamePhase s \<noteq> BENDING" "\<not> isBending s"
    by (auto simp: session_ok_def)
  with assms(1) True show ?thesis
    by (simp add: nextLevel_over endGame_def session_ok_def)
next
  case False
  then have "currentRound s \<le> MAX_ROUNDS" by simp
  with assms(1) drawTarget_member [OF assms(2-4)] show ?thesis
    by (simp add: nextLevel_open session_ok_def)
qed

lemma session_ok_restartGame:
  assumes "session_ok ta s" and "0 \<le> r" and "r < 1" and "ta \<noteq> []"
  shows "session_ok ta (restartGame ta r s)"
  using assms(1) drawTarget_member [OF assms(2-4)]
  by (simp add: restartGame_eq session_ok_def MAX_ROUNDS_def)

lemma session_ok_update:
  assumes "session_ok ta s" and "0 \<le> dt"
  shows "session_ok ta (update dt s)"
proof (cases "isBending s")
  case False
  with assms(1) show ?thesis by (simp add: update_idle)
next
  case True
  from assms have le: "currentAngle s - bendSpeed s * dt \<le> currentAngle s"
    by (simp add: session_ok_def)
  show ?thesis
  proof (cases "currentAngle s - bendSpeed s * dt < 45")
    case clamp: True
    from assms(1) have "session_ok ta (s\<lparr> currentAngle := 45 \<rparr>)"
      by (simp add: session_ok_def)
    then have "session_ok ta (stopBending (s\<lparr> currentAngle := 45 \<rparr>))"
      by (rule session_ok_stopBending)
    with True clamp show ?thesis by (simp add: update_def Let_def)
  next
    case free: False
    with True have "update dt s = s\<lparr> currentAngle := currentAngle s - bendSpeed s * dt \<rparr>"
      by (simp add: update_def Let_def)
    with assms(1) le free show ?thesis by (simp add: session_ok_def)
  qed
qed

lemma session_ok_handle:
  assumes "session_ok ta s" and "admissible e" and "ta \<noteq> []"
  shows "session_ok ta (handle ta e s)"
proof (cases e)
  case (Toggle now)
  with assms show ?thesis by (simp add: session_ok_toggleAction)
next
  case (Next r)
  with assms show ?thesis by (simp add: session_ok_nextLevel)
next
  case (Frame dt)
  with assms show ?thesis by (simp add: session_ok_update)
next
  case (Restart r)
  with assms show ?thesis by (simp add: session_ok_restartGame)
qed

lemma session_ok_run:
  "session_ok ta s \<Longrightarrow> list_all admissible evs \<Longrightarrow> ta \<noteq> [] \<Longrightarrow>
   session_ok ta (run ta evs s)"
  by (induction evs arbitrary: s) (simp_all add: session_ok_handle)

lemma session_ok_reachable:
  assumes "0 \<le> r0" and "r0 < 1" and "ta \<noteq> []" and "list_all admissible evs"
  shows "session_ok ta (run ta evs (initGame ta r0))"
  using session_ok_initGame [OF assms(1-3)] assms(4,3) by (rule session_ok_run)

subsection \<open>The angle alone\<close>

lemma angle_handle:
  assumes "45 \<le> currentAngle s" and "currentAngle s \<le> 180" and "0 \<le> bendSpeed s"
    and "admissible e"
  shows "45 \<le> currentAngle (handle ta e s) \<and> currentAngle (handle ta e s) \<le> 180 \<and>
         bendSpeed (handle ta e s) = bendSpeed s"
proof (cases e)
  case (Toggle now)
  with assms show ?thesis
    by (simp add: toggleAction_def startBending_def stopBending_def calculateScore_def Let_def)
next
  case (Next r)
  with assms show ?thesis by (simp add: nextLevel_def endGame_def)
next
  case (Frame dt)
  with assms have "0 \<le> bendSpeed s * dt" by simp
  with assms(2) have le: "currentAngle s - bendSpeed s * dt \<le> 180" by simp
  have b: "bendSpeed (update dt s) = bendSpeed s"
    by (simp add: update_def Let_def stopBending_def calculateScore_def)
  show ?thesis
  proof (cases "isBending s")
    case True
    with assms le b Frame show ?thesis by (simp add: update_currentAngle)
  next
    case False
    with assms Frame show ?thesis by (simp add: update_idle)
  qed
next
  case (Restart r)
  with assms show ?thesis by (simp add: restartGame_eq)
qed

lemma angle_run:
  "45 \<le> currentAngle s \<Longrightarrow> currentAngle s \<le> 180 \<Longrightarrow> 0 \<le> bendSpeed s \<Longrightarrow>
   list_all admissible evs \<Longrightarrow>
   45 \<le> currentAngle (run ta evs s) \<and> currentAngle (run ta evs s) \<le> 180"
proof (induction evs arbitrary: s)
  case Nil
  then show ?case by simp
next
  case (Cons e evs)
  from Cons.prems have e: "admissible e" and rest: "list_all admissible evs" by simp_all
  from angle_handle [OF Cons.prems(1-3) e, of ta] rest Cons.prems(3)
  show ?case by (simp add: Cons.IH)
qed

lemma initGame_angle:
  "currentAngle (initGame ta r) = 180 \<and> bendSpeed (initGame ta r) = 30"
  by (simp add: initGame_eq initialState_def)

lemma twoRounds_admissible: "list_all admissible twoRounds"
  by (simp add: twoRounds_def)

lemma twoRounds_result:
  "run TARGET_ANGLES twoRounds (initGame TARGET_ANGLES (1/2)) =
     \<lparr> score = 75, level = 2, currentRound = 3, targetAngle = 85, currentAngle = 45,
       isBending = False, gamePhase = STOPPED, startTime = 0, bendSpeed = 30,
       lastTime = Some 4000 \<rparr>"
  by (simp add: twoRounds_def initGame_def nextLevel_def initialState_def drawTarget_def
      TARGET_ANGLES_def MAX_ROUNDS_def toggleAction_def startBending_def stopBending_def
      calculateScore_def points_def update_def Let_def SCORE_PER_EXACT_HIT_def)

lemma twoRounds_then_next:
  "run TARGET_ANGLES (twoRounds @ [Next (9/10), Toggle 7000]) (initGame TARGET_ANGLES (1/2)) =
     \<lparr> score = 75, level = 3, currentRound = 3, targetAngle = 170, currentAngle = 180,
       isBending = True, gamePhase = BENDING, startTime = 0, bendSpeed = 30,
       lastTime = Some 7000 \<rparr>"
  by (simp add: twoRounds_def initGame_def nextLevel_def initialState_def drawTarget_def
      TARGET_ANGLES_def MAX_ROUNDS_def toggleAction_def startBending_def stopBending_def
      calculateScore_def points_def update_def Let_def SCORE_PER_EXACT_HIT_def)

lemma midBend_fields:
  "gamePhase midBend = BENDING" "isBending midBend" "currentAngle midBend = 95"
  "bendSpeed midBend = 30" "targetAngle midBend = 90" "currentRound midBend = 1"
  "score midBend = 0"
  by (simp_all add: midBend_def initialState_def)

text \<open>
  C2. While bending, with a positive speed and a non-negative elapsed time, one simulation
  step gives an angle that is never below the floor 45 and that is the floor exactly when
  \<open>currentAngle - bendSpeed * elapsedSeconds\<close> falls below it (the difference itself
  otherwise). For every current angle of the session's domain, that is at or above the
  floor, and so for every session reached after start-up, the new angle is at most the
  input angle.
\<close>

theorem update_clamps:
  assumes "isBending s" and "0 < bendSpeed s" and "0 \<le> dt"
  shows "45 \<le> currentAngle (update dt s) \<and>
         (currentAngle s - bendSpeed s * dt < 45 \<longrightarrow> currentAngle (update dt s) = 45) \<and>
         (\<not> currentAngle s - bendSpeed s * dt < 45 \<longrightarrow>
            currentAngle (update dt s) = currentAngle s - bendSpeed s * dt) \<and>
         (45 \<le> currentAngle s \<longrightarrow> currentAngle (update dt s) \<le> currentAngle s) \<and>
         (list_all admissible evs \<and> s = run ta evs (initGame ta r0) \<longrightarrow>
            currentAngle (update dt s) \<le> currentAngle s)"
proof -
  from assms have "0 \<le> bendSpeed s * dt" by simp
  then have le: "currentAngle s - bendSpeed s * dt \<le> currentAngle s" by simp
  with assms(1) have local: "45 \<le> currentAngle (update dt s) \<and>
      (currentAngle s - bendSpeed s * dt < 45 \<longrightarrow> currentAngle (update dt s) = 45) \<and>
      (\<not> currentAngle s - bendSpeed s * dt < 45 \<longrightarrow>
         currentAngle (update dt s) = currentAngle s - bendSpeed s * dt) \<and>
      (45 \<le> currentAngle s \<longrightarrow> currentAngle (update dt s) \<le> currentAngle s)"
    by (simp add: update_currentAngle)
  have "45 \<le> currentAngle s" if "list_all admissible evs \<and> s = run ta evs (initGame ta r0)"
  proof -
    have "45 \<le> currentAngle (initGame ta r0)" "currentAngle (initGame ta r0) \<le> 180"
      "0 \<le> bendSpeed (initGame ta r0)" by (simp_all add: initGame_angle)
    from angle_run [OF this, of evs ta] that show ?thesis by simp
  qed
  with local show ?thesis by blast
qed

theorem update_clamps_witness:
  "isBending midBend \<and> 0 < bendSpeed midBend \<and> (0::real) \<le> 2 \<and>
   currentAngle midBend - bendSpeed midBend * 2 < 45 \<and>
   currentAngle (update 2 midBend) = 45 \<and>
   \<not> currentAngle midBend - bendSpeed midBend * (1/10) < 45 \<and>
   currentAngle (update (1/10) midBend) = 92 \<and>
   45 \<le> currentAngle midBend \<and> currentAngle (update (1/10) midBend) \<le> currentAngle midBend \<and>
   list_all admissible (twoRounds @ [Next (9/10), Toggle 7000]) \<and>
   isBending (run TARGET_ANGLES (twoRounds @ [Next (9/10), Toggle 7000])
     (initGame TARGET_ANGLES (1/2))) \<and>
   0 < bendSpeed (run TARGET_ANGLES (twoRounds @ [Next (9/10), Toggle 7000])
     (initGame TARGET_ANGLES (1/2))) \<and>
   currentAngle (update 1 (run TARGET_ANGLES (twoRounds @ [Next (9/10), Toggle 7000])
     (initGame TARGET_ANGLES (1/2)))) = 150 \<and>
   currentAngle (update 1 (run TARGET_ANGLES (twoRounds @ [Next (9/10), Toggle 7000])
     (initGame TARGET_ANGLES (1/2))))
     \<le> currentAngle (run TARGET_ANGLES (twoRounds @ [Next (9/10), Toggle 7000])
          (initGame TARGET_ANGLES (1/2)))"
proof -
  let ?evs = "twoRounds @ [Next (9/10), Toggle 7000]"
  let ?s = "run TARGET_ANGLES ?evs (initGame TARGET_ANGLES (1/2))"
  have h: "isBending midBend" "0 < bendSpeed midBend" by (simp_all add: midBend_fields)
  have v: "currentAngle midBend = 95" "bendSpeed midBend = 30" by (simp_all add: midBend_fields)
  have m: "currentAngle midBend - bendSpeed midBend * 2 < 45"
    "\<not> currentAngle midBend - bendSpeed midBend * (1/10) < 45"
    "currentAngle midBend - bendSpeed midBend * (1/10) = 92" "45 \<le> currentAngle midBend"
    by (simp_all add: v)
  have k: "(0::real) \<le> 1" "(0::real) \<le> 2" "(0::real) \<le> 1/10" by simp_all
  note a = update_clamps [OF h k(2), of "[]" TARGET_ANGLES 0]
  note b = update_clamps [OF h k(3), of "[]" TARGET_ANGLES 0]
  from a m(1) have c1: "currentAngle (update 2 midBend) = 45" by blast
  from b m(2) have "currentAngle (update (1/10) midBend)
      = currentAngle midBend - bendSpeed midBend * (1/10)" by blast
  with m(3) have c2: "currentAngle (update (1/10) midBend) = 92" by simp
  from b m(4) have c3: "currentAngle (update (1/10) midBend) \<le> currentAngle midBend" by blast
  have l: "list_all admissible ?evs" by (simp add: twoRounds_admissible)
  have g: "isBending ?s" "0 < bendSpeed ?s" "currentAngle ?s = 180" "bendSpeed ?s = 30"
    by (simp_all only: twoRounds_then_next) simp_all
  note c = update_clamps [OF g(1,2) k(1), of ?evs TARGET_ANGLES "1/2"]
  from c l have c4: "currentAngle (update 1 ?s) \<le> currentAngle ?s" by blast
  have "\<not> currentAngle ?s - bendSpeed ?s * 1 < 45" by (simp add: g)
  with c have "currentAngle (update 1 ?s) = currentAngle ?s - bendSpeed ?s * 1" by blast
  then have c5: "currentAngle (update 1 ?s) = 150" by (simp add: g)
  from h k(2) m(1,2,4) c1 c2 c3 l g(1,2) c5 c4 show ?thesis by blast
qed

text \<open>
  C6. After start-up, whatever admissible events arrive (frames with a non-negative
  elapsed time), \<open>currentAngle\<close> lies between the floor 45 and 180. Each handler keeps an
  angle of that range in the range (given a speed that is not negative, as the fixed 30 is);
  starting and stopping do not touch the angle; entering a round (at start-up, by the
  advance action while rounds remain, by restart) sets it to 180.
\<close>

theorem angle_within_bounds:
  assumes "list_all admissible evs"
  shows "45 \<le> currentAngle (run ta evs (initGame ta r0)) \<and>
         currentAngle (run ta evs (initGame ta r0)) \<le> 180 \<and>
         (45 \<le> currentAngle s \<and> currentAngle s \<le> 180 \<and> 0 \<le> bendSpeed s \<and> admissible e \<longrightarrow>
            45 \<le> currentAngle (handle ta e s) \<and> currentAngle (handle ta e s) \<le> 180) \<and>
         currentAngle (startBending now s) = currentAngle s \<and>
         currentAngle (stopBending s) = currentAngle s \<and>
         currentAngle (initGame ta r0) = 180 \<and>
         (currentRound s \<le> MAX_ROUNDS \<longrightarrow> currentAngle (nextLevel ta r s) = 180) \<and>
         currentAngle (restartGame ta r s) = 180"
proof -
  have i: "currentAngle (initGame ta r0) = 180" "bendSpeed (initGame ta r0) = 30"
    by (simp_all add: initGame_angle)
  then have "45 \<le> currentAngle (initGame ta r0)" "currentAngle (initGame ta r0) \<le> 180"
    "0 \<le> bendSpeed (initGame ta r0)" by simp_all
  from angle_run [OF this assms, of ta]
  have reach: "45 \<le> currentAngle (run ta evs (initGame ta r0)) \<and>
               currentAngle (run ta evs (initGame ta r0)) \<le> 180" .
  have step: "45 \<le> currentAngle (handle ta e s) \<and> currentAngle (handle ta e s) \<le> 180"
    if "45 \<le> currentAngle s \<and> currentAngle s \<le> 180 \<and> 0 \<le> bendSpeed s \<and> admissible e"
    using angle_handle [of s e ta] that by simp
  have start: "currentAngle (startBending now s) = currentAngle s"
    by (simp add: startBending_def)
  have enter: "currentAngle (nextLevel ta r s) = 180" if "currentRound s \<le> MAX_ROUNDS"
    using that by (simp add: nextLevel_open)
  have again: "currentAngle (restartGame ta r s) = 180" by (simp add: restartGame_eq)
  from reach step start stopBending_currentAngle [of s] i(1) enter again
  show ?thesis by blast
qed

theorem angle_within_bounds_witness:
  "list_all admissible twoRounds \<and>
   currentAngle (run TARGET_ANGLES twoRounds (initGame TARGET_ANGLES (1/2))) = 45 \<and>
   45 \<le> currentAngle (run TARGET_ANGLES twoRounds (initGame TARGET_ANGLES (1/2))) \<and>
   currentAngle (run TARGET_ANGLES twoRounds (initGame TARGET_ANGLES (1/2))) \<le> 180 \<and>
   45 \<le> currentAngle midBend \<and> currentAngle midBend \<le> 180 \<and> 0 \<le> bendSpeed midBend \<and>
   admissible (Frame 1) \<and>
   45 \<le> currentAngle (handle TARGET_ANGLES (Frame 1) midBend) \<and>
   currentAngle (handle TARGET_ANGLES (Frame 1) midBend) \<le> 180 \<and>
   currentRound midBend \<le> MAX_ROUNDS \<and>
   currentAngle (nextLevel TARGET_ANGLES (1/2) midBend) = 180"
proof -
  let ?s = "run TARGET_ANGLES twoRounds (initGame TARGET_ANGLES (1/2))"
  note a = angle_within_bounds [OF twoRounds_admissible,
      of TARGET_ANGLES "1/2" midBend "Frame 1" 0 "1/2"]
  have v: "currentAngle ?s = 45" by (simp add: twoRounds_result)
  have h: "45 \<le> currentAngle midBend" "currentAngle midBend \<le> 180" "0 \<le> bendSpeed midBend"
    "admissible (Frame 1)" "currentRound midBend \<le> MAX_ROUNDS"
    by (simp_all add: midBend_fields MAX_ROUNDS_def)
  from a have r: "45 \<le> currentAngle ?s" "currentAngle ?s \<le> 180" by blast+
  from a h have f: "45 \<le> currentAngle (handle TARGET_ANGLES (Frame 1) midBend)"
    "currentAngle (handle TARGET_ANGLES (Frame 1) midBend) \<le> 180" by blast+
  from a h have n: "currentAngle (nextLevel TARGET_ANGLES (1/2) midBend) = 180" by blast
  from twoRounds_admissible v r h f n show ?thesis by blast
qed

subsection \<open>The target\<close>










text \<open>
  C8. After start-up, whatever admissible events arrive, \<open>isBending\<close> is true exactly when
  the phase is \<open>BENDING\<close>, and the equivalence still holds after any of start, stop,
  toggle, advance, restart or a simulation step is applied to such a session, and after
  \<^verbatim>\<open>endGame\<close> where the code calls it (round counter past \<^verbatim>\<open>MAX_ROUNDS\<close>).
\<close>

theorem bending_flag_mirrors_phase:
  assumes "0 \<le> r0" and "r0 < 1" and "ta \<noteq> []" and "list_all admissible evs"
    and "s = run ta evs (initGame ta r0)"
  shows "(isBending s \<longleftrightarrow> gamePhase s = BENDING) \<and>
         (isBending (startBending now s) \<longleftrightarrow> gamePhase (startBending now s) = BENDING) \<and>
         (isBending (stopBending s) \<longleftrightarrow> gamePhase (stopBending s) = BENDING) \<and>
         (isBending (toggleAction now s) \<longleftrightarrow> gamePhase (toggleAction now s) = BENDING) \<and>
         (isBending (nextLevel ta r s) \<longleftrightarrow> gamePhase (nextLevel ta r s) = BENDING) \<and>
         (isBending (restartGame ta r s) \<longleftrightarrow> gamePhase (restartGame ta r s) = BENDING) \<and>
         (isBending (update dt s) \<longleftrightarrow> gamePhase (update dt s) = BENDING) \<and>
         (MAX_ROUNDS < currentRound s \<longrightarrow>
            (isBending (endGame s) \<longleftrightarrow> gamePhase (endGame s) = BENDING))"
proof -
  from session_ok_reachable [OF assms(1-4)] assms(5) have ok: "session_ok ta s" by simp
  then have flag: "isBending s \<longleftrightarrow> gamePhase s = BENDING"
    and "open": "gamePhase s = IDLE \<or> gamePhase s = BENDING \<longrightarrow> currentRound s \<le> MAX_ROUNDS"
    by (simp_all add: session_ok_def)
  from session_ok_startBending [OF ok, of now]
  have start: "isBending (startBending now s) \<longleftrightarrow> gamePhase (startBending now s) = BENDING"
    by (simp add: session_ok_def)
  from session_ok_stopBending [OF ok]
  have stop: "isBending (stopBending s) \<longleftrightarrow> gamePhase (stopBending s) = BENDING"
    by (simp add: session_ok_def)
  from session_ok_toggleAction [OF ok, of now]
  have toggle: "isBending (toggleAction now s) \<longleftrightarrow> gamePhase (toggleAction now s) = BENDING"
    by (simp add: session_ok_def)
  have over: "isBending (endGame s) \<longleftrightarrow> gamePhase (endGame s) = BENDING"
    if "MAX_ROUNDS < currentRound s"
  proof -
    from that "open" have "gamePhase s \<noteq> BENDING" by auto
    with flag show ?thesis by (simp add: endGame_def)
  qed
  have "next": "isBending (nextLevel ta r s) \<longleftrightarrow> gamePhase (nextLevel ta r s) = BENDING"
  proof (cases "MAX_ROUNDS < currentRound s")
    case True
    with over show ?thesis by (simp add: nextLevel_over)
  next
    case False
    then show ?thesis by (simp add: nextLevel_open)
  qed
  have again: "isBending (restartGame ta r s) \<longleftrightarrow> gamePhase (restartGame ta r s) = BENDING"
    by (simp add: restartGame_eq)
  have tick: "isBending (update dt s) \<longleftrightarrow> gamePhase (update dt s) = BENDING"
  proof (cases "isBending s")
    case False
    with flag show ?thesis by (simp add: update_idle)
  next
    case True
    with flag have "gamePhase s = BENDING" by simp
    with True show ?thesis
      by (simp add: update_def Let_def stopBending_def calculateScore_def)
  qed
  from flag start stop toggle "next" again tick over show ?thesis by blast
qed

theorem bending_flag_mirrors_phase_witness:
  "(0::real) \<le> 1/2 \<and> (1/2::real) < 1 \<and> TARGET_ANGLES \<noteq> [] \<and>
   list_all admissible (twoRounds @ [Next (9/10), Toggle 7000]) \<and>
   isBending (run TARGET_ANGLES (twoRounds @ [Next (9/10), Toggle 7000])
     (initGame TARGET_ANGLES (1/2))) \<and>
   gamePhase (run TARGET_ANGLES (twoRounds @ [Next (9/10), Toggle 7000])
     (initGame TARGET_ANGLES (1/2))) = BENDING \<and>
   \<not> isBending (update 5 (run TARGET_ANGLES (twoRounds @ [Next (9/10), Toggle 7000])
     (initGame TARGET_ANGLES (1/2)))) \<and>
   gamePhase (update 5 (run TARGET_ANGLES (twoRounds @ [Next (9/10), Toggle 7000])
     (initGame TARGET_ANGLES (1/2)))) \<noteq> BENDING"
proof -
  let ?evs = "twoRounds @ [Next (9/10), Toggle 7000]"
  let ?s = "run TARGET_ANGLES ?evs (initGame TARGET_ANGLES (1/2))"
  have h: "(0::real) \<le> 1/2" "(1/2::real) < 1" "TARGET_ANGLES \<noteq> []"
    by (simp_all add: TARGET_ANGLES_def)
  have l: "list_all admissible ?evs" by (simp add: twoRounds_admissible)
  note a = bending_flag_mirrors_phase [OF h l refl, of 0 "1/2" 5]
  have p: "gamePhase ?s = BENDING" by (simp only: twoRounds_then_next) simp
  have "gamePhase (update 5 ?s) = STOPPED"
    by (simp only: twoRounds_then_next)
       (simp add: update_def Let_def stopBending_def calculateScore_def)
  then have q: "gamePhase (update 5 ?s) \<noteq> BENDING" by simp
  from a p have b: "isBending ?s" by blast
  from a q have c: "\<not> isBending (update 5 ?s)" by blast
  from h l p q b c show ?thesis by blast
qed

end
